theory Spec2Isabelle
  imports Complex_Main "HOL-Library.Sublist" "HOL-Library.Product_Lexorder"
begin

unbundle bit_operations_syntax

section \<open>Text primitives\<close>

text \<open>
  Python strings are sequences of code points. The model reads a \<^typ>\<open>char\<close> as a code
  point in the range U+0000 .. U+00FF, on which the character classes of Python
  (\<^verbatim>\<open>str.isspace\<close>, \<^verbatim>\<open>str.isalpha\<close>, the classes \<^verbatim>\<open>\s\<close>, \<^verbatim>\<open>\d\<close>, \<^verbatim>\<open>\w\<close> of
  \<^verbatim>\<open>re\<close>, and \<^verbatim>\<open>str.lower\<close>) are written out exactly. Code points beyond U+00FF
  are outside the modelled alphabet. Floating-point numbers are modelled as reals.
\<close>

definition code :: "char \<Rightarrow> nat" where
  "code c = of_char c"

definition is_space :: "char \<Rightarrow> bool" where
  "is_space c = (let n = code c in
     (9 \<le> n \<and> n \<le> 13) \<or> (28 \<le> n \<and> n \<le> 32) \<or> n = 133 \<or> n = 160)"

definition is_ascii_upper :: "char \<Rightarrow> bool" where
  "is_ascii_upper c = (let n = code c in 65 \<le> n \<and> n \<le> 90)"

definition is_ascii_lower :: "char \<Rightarrow> bool" where
  "is_ascii_lower c = (let n = code c in 97 \<le> n \<and> n \<le> 122)"

definition is_ascii_letter :: "char \<Rightarrow> bool" where
  "is_ascii_letter c = (is_ascii_upper c \<or> is_ascii_lower c)"

definition is_decimal :: "char \<Rightarrow> bool" where
  "is_decimal c = (let n = code c in 48 \<le> n \<and> n \<le> 57)"

definition is_alpha :: "char \<Rightarrow> bool" where
  "is_alpha c = (let n = code c in
     is_ascii_letter c \<or> n = 170 \<or> n = 181 \<or> n = 186 \<or>
     (192 \<le> n \<and> n \<le> 214) \<or> (216 \<le> n \<and> n \<le> 246) \<or> 248 \<le> n)"

definition is_word :: "char \<Rightarrow> bool" where
  "is_word c = (let n = code c in
     is_alpha c \<or> is_decimal c \<or> n = 95 \<or>
     n = 178 \<or> n = 179 \<or> n = 185 \<or> n = 188 \<or> n = 189 \<or> n = 190)"

definition lower_char :: "char \<Rightarrow> char" where
  "lower_char c = (let n = code c in
     if is_ascii_upper c \<or> (192 \<le> n \<and> n \<le> 222 \<and> n \<noteq> 215)
     then char_of (n + 32) else c)"

definition lower :: "string \<Rightarrow> string" where
  "lower s = map lower_char s"

definition lstrip :: "string \<Rightarrow> string" where
  "lstrip s = dropWhile is_space s"

definition rstrip :: "string \<Rightarrow> string" where
  "rstrip s = rev (dropWhile is_space (rev s))"

definition strip :: "string \<Rightarrow> string" where
  "strip s = rstrip (lstrip s)"

definition rstrip_chars :: "string \<Rightarrow> string \<Rightarrow> string" where
  "rstrip_chars cs s = rev (dropWhile (\<lambda>c. c \<in> set cs) (rev s))"

fun join :: "string \<Rightarrow> string list \<Rightarrow> string" where
  "join sep [] = []"
| "join sep [x] = x"
| "join sep (x # y # ys) = x @ sep @ join sep (y # ys)"

definition contains :: "string \<Rightarrow> string \<Rightarrow> bool" where
  "contains s p = sublist p s"

function replace :: "string \<Rightarrow> string \<Rightarrow> string \<Rightarrow> string" where
  "replace old new s =
     (if old = [] then new @ concat (map (\<lambda>c. c # new) s)
      else if s = [] then []
      else if prefix old s then new @ replace old new (drop (length old) s)
      else hd s # replace old new (tl s))"
  by pat_completeness auto
termination
  by (relation "measure (\<lambda>(old, new, s). length s)") auto

declare replace.simps [simp del]

section \<open>Regular expressions with the matching order of Python's re\<close>

text \<open>
  A cursor is the character before the current position (\<open>None\<close> at the start of the
  subject) and the rest of the subject. \<open>rmatch r k\<close> lists the cursors at which a match
  of \<open>r\<close> starting at \<open>k\<close> can end, in the order in which a backtracking matcher tries
  them: the left alternative first, the longest repetition first. The head of the list is
  the match Python reports.
\<close>

type_synonym cursor = "char option \<times> string"

datatype rx =
    Cls "char \<Rightarrow> bool"
  | Eps
  | Seq rx rx
  | Alt rx rx
  | Star rx
  | Bol
  | Eol
  | WordB

definition word_boundary :: "cursor \<Rightarrow> bool" where
  "word_boundary k =
     ((case fst k of None \<Rightarrow> False | Some c \<Rightarrow> is_word c) \<noteq>
      (case snd k of [] \<Rightarrow> False | c # cs \<Rightarrow> is_word c))"

fun rmatch :: "rx \<Rightarrow> cursor \<Rightarrow> cursor list" where
  "rmatch (Cls p) k =
     (case snd k of [] \<Rightarrow> [] | c # cs \<Rightarrow> if p c then [(Some c, cs)] else [])"
| "rmatch Eps k = [k]"
| "rmatch (Seq a b) k = concat (map (rmatch b) (rmatch a k))"
| "rmatch (Alt a b) k = rmatch a k @ rmatch b k"
| "rmatch (Star a) k =
     concat (map (\<lambda>k'. if length (snd k') < length (snd k) then rmatch (Star a) k' else [])
                 (rmatch a k)) @ [k]"
| "rmatch Bol k = (if fst k = None then [k] else [])"
| "rmatch Eol k = (if snd k = [] \<or> snd k = [CHR 0x0A] then [k] else [])"
| "rmatch WordB k = (if word_boundary k then [k] else [])"

definition Plus :: "rx \<Rightarrow> rx" where
  "Plus a = Seq a (Star a)"

definition Opt :: "rx \<Rightarrow> rx" where
  "Opt a = Alt a Eps"

fun Seqs :: "rx list \<Rightarrow> rx" where
  "Seqs [] = Eps"
| "Seqs [a] = a"
| "Seqs (a # b # bs) = Seq a (Seqs (b # bs))"

fun Alts :: "rx list \<Rightarrow> rx" where
  "Alts [] = Cls (\<lambda>c. False)"
| "Alts [a] = a"
| "Alts (a # b # bs) = Alt a (Alts (b # bs))"

definition Chr :: "char \<Rightarrow> rx" where
  "Chr c = Cls (\<lambda>x. x = c)"

definition OneOf :: "string \<Rightarrow> rx" where
  "OneOf cs = Cls (\<lambda>x. x \<in> set cs)"

definition Lit_ci :: "string \<Rightarrow> rx" where
  "Lit_ci s = Seqs (map (\<lambda>c. Cls (\<lambda>x. lower_char x = lower_char c)) s)"

definition Dot :: rx where
  "Dot = Cls (\<lambda>x. x \<noteq> CHR 0x0A)"

text \<open>\<^verbatim>\<open>pattern.match(s)\<close>: the rest of the subject after the match at position 0.\<close>

definition re_match :: "rx \<Rightarrow> string \<Rightarrow> string option" where
  "re_match r s = (case rmatch r (None, s) of [] \<Rightarrow> None | k # ks \<Rightarrow> Some (snd k))"

text \<open>\<^verbatim>\<open>pattern.search(s)\<close>: whether the pattern matches at some position.\<close>

fun search_from :: "rx \<Rightarrow> cursor \<Rightarrow> bool" where
  "search_from r (prev, []) = (rmatch r (prev, []) \<noteq> [])"
| "search_from r (prev, c # cs) = (rmatch r (prev, c # cs) \<noteq> [] \<or> search_from r (Some c, cs))"

definition re_search :: "rx \<Rightarrow> string \<Rightarrow> bool" where
  "re_search r s = search_from r (None, s)"

text \<open>
  \<^verbatim>\<open>pattern.sub(repl, s)\<close>, scanning from the left: a match that consumes characters is
  replaced and the scan goes on after it; elsewhere one character is copied. Every
  pattern the program substitutes needs at least one character to match, so the
  treatment of empty matches does not arise; the model copies the character there.
\<close>

function sub_from :: "rx \<Rightarrow> string \<Rightarrow> cursor \<Rightarrow> string" where
  "sub_from r repl k =
     (case snd k of
        [] \<Rightarrow> []
      | c # cs \<Rightarrow>
          (case rmatch r k of
             [] \<Rightarrow> c # sub_from r repl (Some c, cs)
           | k' # ks \<Rightarrow>
               if length (snd k') < length (snd k) then repl @ sub_from r repl k'
               else c # sub_from r repl (Some c, cs)))"
  by pat_completeness auto
termination
  by (relation "measure (\<lambda>(r, repl, k). length (snd k))") auto

declare sub_from.simps [simp del]

definition re_sub :: "rx \<Rightarrow> string \<Rightarrow> string \<Rightarrow> string" where
  "re_sub r repl s = sub_from r repl (None, s)"

section \<open>TextExtractor.CLEANING_PATTERNS\<close>

text \<open>
  The bullet glyphs other than \<open>-\<close> and the range U+4E00 .. U+9FFF of the source patterns
  lie outside the modelled alphabet, so the classes that list them keep only their
  members below U+0100. The flag \<^verbatim>\<open>re.IGNORECASE\<close> is written into the classes.
\<close>

definition roman_ci :: "char \<Rightarrow> bool" where
  "roman_ci c = (lower_char c \<in> set ''ivxlcdm'')"

definition rx_numbering :: rx where
  "rx_numbering =
     Seqs [Bol, Star (Cls is_space),
           Alts [Seq (Plus (Cls is_decimal)) (Alt (OneOf ''.)'') (Plus (Cls is_space))),
                 Seqs [Plus (Cls is_decimal),
                       Plus (Seq (Chr CHR ''.'') (Plus (Cls is_decimal))),
                       Star (Cls is_space)],
                 Seqs [Plus (Cls roman_ci), Chr CHR ''.'', Star (Cls is_space)],
                 Seqs [Cls is_ascii_letter, Chr CHR ''.'', Star (Cls is_space)]]]"

definition rx_section_numbers :: rx where
  "rx_section_numbers =
     Seqs [Bol, Star (Cls is_space), Plus (Cls is_decimal),
           Star (Seq (Chr CHR ''.'') (Plus (Cls is_decimal))),
           Plus (Cls is_space)]"

definition rx_bullets :: rx where
  "rx_bullets = Seqs [Bol, Star (Cls is_space), OneOf ''-'', Star (Cls is_space)]"

definition rx_whitespace :: rx where
  "rx_whitespace = Plus (Cls is_space)"

definition not_letter :: "char \<Rightarrow> bool" where
  "not_letter c = (\<not> is_ascii_letter c)"

definition rx_table_content :: rx where
  "rx_table_content =
     Alt (Seqs [Star Dot, OneOf '':;'', Star (Cls is_space), Eol])
         (Seqs [Bol, Cls not_letter, Cls not_letter, Cls not_letter,
                Star (Cls not_letter), Eol])"

definition rx_copyright_text :: rx where
  "rx_copyright_text =
     Alts [Seq (Chr (CHR 0xA9)) (Star Dot),
           Seq (Lit_ci ''copyright'') (Star Dot),
           Seqs [Cls is_decimal, Cls is_decimal, Cls is_decimal, Cls is_decimal,
                 Star Dot, Lit_ci ''board'']]"

definition rx_page_numbers :: rx where
  "rx_page_numbers =
     Seqs [Bol, Star (Cls is_space),
           Opt (Seq (Lit_ci ''page'') (Plus (Cls is_space))),
           Plus (Cls is_decimal),
           Opt (Seqs [Plus (Cls is_space), Lit_ci ''of'', Plus (Cls is_space),
                      Plus (Cls is_decimal)]),
           Star (Cls is_space), Eol]"

section \<open>TextExtractor.clean_heading_text\<close>

definition clean_heading_text :: "string \<Rightarrow> string" where
  "clean_heading_text text =
     (if text = [] \<or> strip text = [] then []
      else
        let cleaned = strip text;
            cleaned = strip (re_sub rx_section_numbers [] cleaned);
            cleaned = strip (re_sub rx_numbering [] cleaned);
            cleaned = strip (re_sub rx_bullets [] cleaned);
            cleaned = strip (re_sub rx_whitespace '' '' cleaned);
            cleaned = rstrip_chars ''.-_:'' cleaned
        in cleaned)"

section \<open>is_heading_like\<close>

definition is_heading_like :: "string \<Rightarrow> real \<Rightarrow> real \<Rightarrow> int \<Rightarrow> real \<Rightarrow> bool" where
  "is_heading_like text font_size body_size flags threshold =
     (if font_size < body_size * threshold then False
      else if length (strip text) > 100 then False
      else
        let is_bold = (flags AND 16 \<noteq> 0) in
        if is_bold \<and> font_size \<ge> body_size then True
        else font_size \<ge> body_size * threshold)"

section \<open>reader.py: spans, pages and blocks\<close>

text \<open>
  What the PDF library hands over: a page has a rectangle and a text dictionary whose
  blocks hold lines of spans (an image block has no lines). A field read with
  \<^verbatim>\<open>span.get(key, default)\<close> is an option, \<open>None\<close> when the key is absent. A page
  whose \<^verbatim>\<open>get_text\<close> raises has \<open>get_text = None\<close>.
\<close>

type_synonym bbox = "real \<times> real \<times> real \<times> real"

definition bbox0 :: "bbox \<Rightarrow> real" where
  "bbox0 b = fst b"

definition bbox1 :: "bbox \<Rightarrow> real" where
  "bbox1 b = fst (snd b)"

record span =
  span_text :: "string option"
  span_size :: "real option"
  span_flags :: "int option"
  span_bbox :: "bbox option"
  span_font :: "string option"

record raw_block =
  lines :: "span list list option"

record page =
  rect_height :: real
  rect_width :: real
  get_text :: "raw_block list option"

record block =
  block_text :: string
  bbox :: bbox
  font_name :: string
  font_size :: real
  flags :: int
  page_height :: real
  page_width :: real
  relative_y :: real
  is_bold :: bool
  is_italic :: bool
  page :: "int option"

definition get_default :: "'a option \<Rightarrow> 'a \<Rightarrow> 'a" where
  "get_default v d = (case v of None \<Rightarrow> d | Some x \<Rightarrow> x)"

definition block_of_span :: "real \<Rightarrow> real \<Rightarrow> span \<Rightarrow> block option" where
  "block_of_span height width sp =
     (let txt = strip (get_default (span_text sp) []) in
      if txt = [] then None
      else
        let size = get_default (span_size sp) 12.0;
            font_flags = get_default (span_flags sp) 0;
            bb = get_default (span_bbox sp) (0, 0, 0, 0);
            rel_y = (if height > 0 then bbox1 bb / height else 0)
        in Some \<lparr> block_text = txt, bbox = bb,
                  font_name = get_default (span_font sp) ''unknown'',
                  font_size = size, flags = font_flags,
                  page_height = height, page_width = width,
                  relative_y = rel_y,
                  is_bold = (font_flags AND 16 \<noteq> 0),
                  is_italic = (font_flags AND 2 \<noteq> 0),
                  page = None \<rparr>)"

definition extract_blocks_from_page :: "page \<Rightarrow> block list" where
  "extract_blocks_from_page pg =
     (case get_text pg of
        None \<Rightarrow> []
      | Some bs \<Rightarrow>
          List.map_filter (block_of_span (rect_height pg) (rect_width pg))
            (concat (concat (map (\<lambda>b. case lines b of None \<Rightarrow> [] | Some ls \<Rightarrow> ls) bs))))"

text \<open>
  \<^verbatim>\<open>get_text_blocks_vectorized\<close>: the blocks of all pages in page order, each tagged
  with its page number, and one feature row per block (the narrowing of the features to
  32-bit floats is not modelled).
\<close>

definition page_blocks :: "nat \<Rightarrow> page \<Rightarrow> block list" where
  "page_blocks page_num pg =
     map (\<lambda>b. b\<lparr>page := Some (int page_num)\<rparr>) (extract_blocks_from_page pg)"

definition all_blocks_of :: "page list \<Rightarrow> block list" where
  "all_blocks_of pages = concat (map (\<lambda>(n, pg). page_blocks n pg) (enumerate 0 pages))"

definition feature_row :: "block \<Rightarrow> real \<times> int \<times> real \<times> real" where
  "feature_row b = (font_size b, (if is_bold b then 1 else 0), relative_y b, bbox0 (bbox b))"

definition get_text_blocks_vectorized ::
  "page list \<Rightarrow> (real \<times> int \<times> real \<times> real) list \<times> block list" where
  "get_text_blocks_vectorized pages =
     (let all_blocks = all_blocks_of pages in (map feature_row all_blocks, all_blocks))"

section \<open>reader.py: analyze_font_distribution\<close>

text \<open>
  The numpy reductions, after numpy's documentation: the median is the mean of the middle
  element (odd length) or of the two middle elements (even length) of the sorted data;
  the percentile interpolates linearly between the two nearest ranks; the standard
  deviation is that of the population.
\<close>

definition np_mean :: "real list \<Rightarrow> real" where
  "np_mean xs = sum_list xs / real (length xs)"

definition np_median :: "real list \<Rightarrow> real" where
  "np_median xs =
     (let part = sort xs; sz = length part; index = sz div 2 in
      if sz mod 2 = 1 then np_mean (take 1 (drop index part))
      else np_mean (take 2 (drop (index - 1) part)))"

definition np_std :: "real list \<Rightarrow> real" where
  "np_std xs = sqrt (np_mean (map (\<lambda>x. (x - np_mean xs)\<^sup>2) xs))"

definition np_percentile :: "real list \<Rightarrow> real \<Rightarrow> real" where
  "np_percentile xs q =
     (let s = sort xs; n = length s;
          virtual_index = q / 100 * real (n - 1);
          lo = nat \<lfloor>virtual_index\<rfloor>;
          hi = min (lo + 1) (n - 1);
          g = virtual_index - real lo
      in s ! lo + (s ! hi - s ! lo) * g)"

record font_stats =
  body_size :: real
  mean_size :: "real option"
  std_size :: "real option"
  sizes :: "real list"
  unique_sizes :: "real list option"
  size_counts :: "(real \<rightharpoonup> nat) option"
  percentiles :: "string \<rightharpoonup> real"

definition analyze_font_distribution :: "block list \<Rightarrow> font_stats" where
  "analyze_font_distribution blocks =
     (if blocks = [] then
        \<lparr> body_size = 12.0, mean_size = None, std_size = None, sizes = [],
          unique_sizes = None, size_counts = None, percentiles = Map.empty \<rparr>
      else
        let szs = map font_size blocks in
        \<lparr> body_size = np_median szs,
          mean_size = Some (np_mean szs),
          std_size = Some (np_std szs),
          sizes = szs,
          unique_sizes = Some (sort (remdups szs)),
          size_counts = Some (map_of (map (\<lambda>x. (x, count_list szs x)) (sort (remdups szs)))),
          percentiles = map_of
            [(''25'', np_percentile szs 25), (''50'', np_percentile szs 50),
             (''75'', np_percentile szs 75), (''85'', np_percentile szs 85),
             (''90'', np_percentile szs 90), (''95'', np_percentile szs 95)] \<rparr>)"

text \<open>The median in the words of the specification.\<close>

definition median_spec :: "real list \<Rightarrow> real" where
  "median_spec xs =
     (let s = sort xs; n = length s in
      if odd n then s ! (n div 2)
      else (s ! (n div 2 - 1) + s ! (n div 2)) / 2)"

section \<open>reader.py: PDFReader\<close>

text \<open>
  A loaded document: its pages and its metadata dictionary (\<open>None\<close> when the document
  has none), an association list whose values are strings or Python's \<^verbatim>\<open>None\<close>.
  In a condition the document object is false when it has no page, and the dictionary
  when it is empty. Stripping a \<^verbatim>\<open>None\<close> title raises.
\<close>

record pdf_reader =
  pages :: "page list"
  metadata :: "(string \<times> string option) list option"

datatype error = AttributeError | LoadError | DetectError

definition get_title_from_metadata :: "pdf_reader \<Rightarrow> error + string option" where
  "get_title_from_metadata rd =
     (case metadata rd of
        None \<Rightarrow> Inr None
      | Some md \<Rightarrow>
          if pages rd = [] \<or> md = [] then Inr None
          else
            (case map_of md ''title'' of
               None \<Rightarrow> Inr None
             | Some None \<Rightarrow> Inl AttributeError
             | Some (Some t) \<Rightarrow>
                 let title = strip t in Inr (if title \<noteq> [] then Some title else None)))"

section \<open>TextExtractor: the title cascade\<close>

definition invalid_patterns :: "string list" where
  "invalid_patterns =
     [''page '', ''document'', ''draft'', ''version'', ''table of contents'', ''toc'', ''index'']"

definition is_valid_title :: "string \<Rightarrow> bool" where
  "is_valid_title t =
     (if t = [] \<or> length (strip t) < 3 then False
      else
        let text_lower = strip (lower t) in
        if list_ex (\<lambda>pattern. contains text_lower pattern) invalid_patterns then False
        else if real (length (filter is_alpha t)) < real (length t) * 0.3 then False
        else if re_match rx_table_content t \<noteq> None then False
        else True)"

text \<open>
  \<^verbatim>\<open>re.findall\<close> for a pattern without groups: the matched substrings, left to right.
  The pattern it is used with needs a character to match.
\<close>

function findall_from :: "rx \<Rightarrow> cursor \<Rightarrow> string list" where
  "findall_from r k =
     (case snd k of
        [] \<Rightarrow> []
      | c # cs \<Rightarrow>
          (case rmatch r k of
             [] \<Rightarrow> findall_from r (Some c, cs)
           | k' # ks \<Rightarrow>
               if length (snd k') < length (snd k)
               then take (length (snd k) - length (snd k')) (snd k) # findall_from r k'
               else findall_from r (Some c, cs)))"
  by pat_completeness auto
termination
  by (relation "measure (\<lambda>(r, k). length (snd k))") auto

declare findall_from.simps [simp del]

definition re_findall :: "rx \<Rightarrow> string \<Rightarrow> string list" where
  "re_findall r s = findall_from r (None, s)"

definition rx_words :: rx where
  "rx_words = Seqs [WordB, Plus (Cls is_word), WordB]"

definition STOP_WORDS_english :: "string list" where
  "STOP_WORDS_english =
     [''the'', ''a'', ''an'', ''and'', ''or'', ''but'', ''in'', ''on'', ''at'', ''to'', ''for'',
      ''of'', ''with'', ''by'']"

definition STOP_WORDS_common :: "string list" where
  "STOP_WORDS_common =
     [''page'', ''document'', ''file'', ''untitled'', ''draft'', ''version'', ''v'', ''pdf'']"

definition is_stop_word_only :: "string \<Rightarrow> bool" where
  "is_stop_word_only t =
     (let words = re_findall rx_words (lower t) in
      if words = [] then True
      else
        let all_stop_words = set STOP_WORDS_english \<union> set STOP_WORDS_common;
            non_stop_words = filter (\<lambda>w. w \<notin> all_stop_words) words
        in length non_stop_words = 0)"

definition block_page :: "block \<Rightarrow> int" where
  "block_page b = get_default (page b) 0"

text \<open>
  Strategy 1. The block list \<open>largest_blocks\<close> holds a block of maximal size, so it is
  not empty and the program's \<^verbatim>\<open>largest_blocks[0]\<close> does not raise.
\<close>

definition title_candidate_1 :: "block list \<Rightarrow> block \<Rightarrow> real \<Rightarrow> string" where
  "title_candidate_1 upper_blocks title_block max_size =
     (let title_parts = block_text title_block #
            map block_text
              (filter (\<lambda>b. b \<noteq> title_block \<and>
                         \<bar>font_size b - max_size\<bar> \<le> 1.0 \<and>
                         \<bar>bbox1 (bbox b) - bbox1 (bbox title_block)\<bar> \<le> 30)
                 upper_blocks)
      in strip (join '' '' title_parts))"

definition extract_title_strategy_1 :: "block list \<Rightarrow> real \<Rightarrow> string option" where
  "extract_title_strategy_1 blocks page_cutoff =
     (if blocks = [] then None
      else
        let first_page_blocks = filter (\<lambda>b. block_page b = 0) blocks in
        if first_page_blocks = [] then None
        else
          let cutoff_y = page_height (hd first_page_blocks) * page_cutoff;
              upper = filter (\<lambda>b. bbox1 (bbox b) \<le> cutoff_y) first_page_blocks;
              upper_blocks =
                (if upper = [] then take 3 (sort_key (\<lambda>b. bbox1 (bbox b)) first_page_blocks)
                 else upper)
          in
          if upper_blocks = [] then None
          else
            let max_size = Max (set (map font_size upper_blocks));
                largest_blocks =
                  sort_key (\<lambda>b. bbox1 (bbox b))
                    (filter (\<lambda>b. font_size b = max_size) upper_blocks)
            in
            (case largest_blocks of
               [] \<Rightarrow> None
             | title_block # rest \<Rightarrow>
                 let title_candidate = title_candidate_1 upper_blocks title_block max_size in
                 if is_valid_title title_candidate then Some (title_candidate @ ''  '')
                 else None))"

definition extract_title_strategy_2 :: "pdf_reader \<Rightarrow> string option" where
  "extract_title_strategy_2 rd =
     (case get_title_from_metadata rd of
        Inl e \<Rightarrow> None
      | Inr None \<Rightarrow> None
      | Inr (Some metadata_title) \<Rightarrow>
          if metadata_title \<noteq> [] \<and> is_valid_title metadata_title
          then Some (strip metadata_title @ ''  '')
          else None)"

fun first_line_scan :: "block list \<Rightarrow> string option" where
  "first_line_scan [] = None"
| "first_line_scan (b # bs) =
     (let t = strip (block_text b) in
      if length t < 3 then first_line_scan bs
      else if re_match rx_page_numbers t \<noteq> None \<or> re_search rx_copyright_text t
        then first_line_scan bs
      else if is_valid_title t \<and> \<not> is_stop_word_only t then Some (t @ ''  '')
      else first_line_scan bs)"

definition extract_title_strategy_3 :: "block list \<Rightarrow> string option" where
  "extract_title_strategy_3 blocks =
     (if blocks = [] then None
      else
        let sorted_blocks = sort_key (\<lambda>b. (block_page b, bbox1 (bbox b))) blocks
        in first_line_scan (take 20 sorted_blocks))"

definition truthy :: "string option \<Rightarrow> bool" where
  "truthy t = (case t of None \<Rightarrow> False | Some s \<Rightarrow> s \<noteq> [])"

definition filename_title :: "string \<Rightarrow> string" where
  "filename_title filename =
     (let stem = replace ''-'' '' '' (replace ''_'' '' '' (replace ''.pdf'' [] filename))
      in if strip stem \<noteq> [] then strip stem @ ''  '' else ''Untitled Document'')"

definition extract_title_with_fallback :: "block list \<Rightarrow> pdf_reader \<Rightarrow> string \<Rightarrow> string" where
  "extract_title_with_fallback blocks rd filename =
     (if filename \<noteq> [] \<and> contains (lower filename) ''file05'' then []
      else
        let title = extract_title_strategy_1 blocks 0.15 in
        if truthy title then the title
        else
          let title = extract_title_strategy_2 rd in
          if truthy title then the title
          else
            let title = extract_title_strategy_3 blocks in
            if truthy title then the title
            else if filename \<noteq> [] then filename_title filename
            else ''Untitled Document'')"

section \<open>TextExtractor.filter_heading_candidates\<close>

text \<open>
  A heading candidate as the detector hands it over: its text, level and page, and
  whatever other fields it carries (the extension of the record). The copy the filter
  makes changes the text only.
\<close>

record 'l heading =
  heading_text :: string
  level :: 'l
  heading_page :: int

definition form_words :: "string list" where
  "form_words = [''application'', ''form'', ''grant'', ''ltc'']"

fun filter_loop ::
  "int \<Rightarrow> int \<Rightarrow> ('l, 'm) heading_scheme list \<Rightarrow> ('l, 'm) heading_scheme list \<Rightarrow>
   string set \<Rightarrow> ('l, 'm) heading_scheme list" where
  "filter_loop min_length max_length [] filtered seen_texts = filtered"
| "filter_loop min_length max_length (h # hs) filtered seen_texts =
     (let t = strip (heading_text h) in
      if t = [] \<or> \<not> (min_length \<le> int (length t) \<and> int (length t) \<le> max_length)
        then filter_loop min_length max_length hs filtered seen_texts
      else if re_match rx_page_numbers t \<noteq> None \<or> re_search rx_copyright_text t
        then filter_loop min_length max_length hs filtered seen_texts
      else if re_match rx_table_content t \<noteq> None
        then filter_loop min_length max_length hs filtered seen_texts
      else if real (length (filter is_alpha t)) / real (length t) < 0.3
        then filter_loop min_length max_length hs filtered seen_texts
      else
        let cleaned_text = clean_heading_text t in
        if cleaned_text = [] then filter_loop min_length max_length hs filtered seen_texts
        else
          let text_key = strip (lower cleaned_text) in
          if text_key \<in> seen_texts
            then filter_loop min_length max_length hs filtered seen_texts
          else if list_ex (\<lambda>w. contains (lower t) w) form_words \<and> length filtered = 0
            then []
          else filter_loop min_length max_length hs
                 (filtered @ [h\<lparr>heading_text := cleaned_text @ '' ''\<rparr>])
                 (insert text_key seen_texts))"

definition filter_heading_candidates ::
  "('l, 'm) heading_scheme list \<Rightarrow> int \<Rightarrow> int \<Rightarrow> ('l, 'm) heading_scheme list" where
  "filter_heading_candidates headings min_length max_length =
     (if headings = [] then [] else filter_loop min_length max_length headings [] {})"

section \<open>process_pdfs.py: OutlineExtractor\<close>

definition form_indicators :: "string list" where
  "form_indicators = [''application'', ''form'', ''grant'', ''ltc'', ''government'', ''servant'']"

definition form_count :: "block list \<Rightarrow> nat" where
  "form_count blocks =
     (let text_content = join '' '' (map (\<lambda>b. lower (block_text b)) (take 20 blocks))
      in length (filter (\<lambda>indicator. contains text_content indicator) form_indicators))"

definition should_have_empty_outline :: "block list \<Rightarrow> string \<Rightarrow> bool" where
  "should_have_empty_outline blocks filename =
     (if blocks = [] then True
      else if contains (lower filename) ''file01'' then True
      else if form_count blocks \<ge> 3 then True
      else False)"

record 'l outline_item =
  item_level :: 'l
  item_text :: string
  item_page :: int

record 'l result =
  title :: string
  outline :: "'l outline_item list"

text \<open>
  The per-document pipeline. The document is given by the stem of its file name
  (\<^verbatim>\<open>Path(pdf_path).stem\<close>) and by what loading it yields, \<open>Inl\<close> when the reader
  raises. The heading detector is not part of the sources at hand: it is the parameter
  \<open>detect_headings\<close>, which may raise too. Any exception ends in the fallback result.
\<close>

definition failure_result :: "string \<Rightarrow> 'l result" where
  "failure_result stem =
     \<lparr> title = (if stem \<noteq> [] then stem else ''Processing Failed''), outline = [] \<rparr>"

definition outline_item_of :: "('l, 'm) heading_scheme \<Rightarrow> 'l outline_item" where
  "outline_item_of h =
     \<lparr> item_level = level h, item_text = heading_text h, item_page = heading_page h \<rparr>"

definition extract_outline_from_pdf ::
  "(block list \<Rightarrow> error + ('l, 'm) heading_scheme list) \<Rightarrow> string \<Rightarrow>
   error + pdf_reader \<Rightarrow> 'l result" where
  "extract_outline_from_pdf detect_headings filename loaded =
     (case loaded of
        Inl e \<Rightarrow> failure_result filename
      | Inr rd \<Rightarrow>
          let all_blocks = snd (get_text_blocks_vectorized (pages rd));
              t = extract_title_with_fallback all_blocks rd filename
          in
          if should_have_empty_outline all_blocks filename
          then \<lparr> title = t, outline = [] \<rparr>
          else
            (case detect_headings all_blocks of
               Inl e \<Rightarrow> failure_result filename
             | Inr raw_headings \<Rightarrow>
                 let filtered_headings = filter_heading_candidates raw_headings 3 200
                 in \<lparr> title = t, outline = map outline_item_of filtered_headings \<rparr>))"

section \<open>Auxiliary definitions\<close>

text \<open>The copy of a heading that the filter emits: the text cleaned, one space appended.\<close>

definition cleaned_copy :: "('l, 'm) heading_scheme \<Rightarrow> ('l, 'm) heading_scheme" where
  "cleaned_copy h = h\<lparr>heading_text := clean_heading_text (strip (heading_text h)) @ '' ''\<rparr>"

text \<open>
  What substituting one space for every run of whitespace computes, and the strings it
  leaves unchanged: those whose only whitespace is single spaces.
\<close>

function collapse_ws :: "string \<Rightarrow> string" where
  "collapse_ws [] = []"
| "collapse_ws (c # cs) =
     (if is_space c then CHR '' '' # collapse_ws (dropWhile is_space cs) else c # collapse_ws cs)"
  by pat_completeness auto
termination
  by (relation "measure length") (auto simp: length_dropWhile_le le_imp_less_Suc)

fun single_spaced :: "string \<Rightarrow> bool" where
  "single_spaced [] = True"
| "single_spaced [c] = (is_space c \<longrightarrow> c = CHR '' '')"
| "single_spaced (c # d # r) =
     ((is_space c \<longrightarrow> c = CHR '' '' \<and> \<not> is_space d) \<and> single_spaced (d # r))"

section \<open>Example inputs\<close>

definition example_span :: "string \<Rightarrow> real \<Rightarrow> int \<Rightarrow> real \<Rightarrow> span" where
  "example_span t sz fl y0 =
     \<lparr> span_text = Some t, span_size = Some sz, span_flags = Some fl,
       span_bbox = Some (72, y0, 300, y0 + sz), span_font = Some ''Helvetica'' \<rparr>"

definition example_page :: "real \<Rightarrow> span list \<Rightarrow> page" where
  "example_page h sps =
     \<lparr> rect_height = h, rect_width = 612, get_text = Some [\<lparr> lines = Some [sps] \<rparr>] \<rparr>"

definition example_block :: "string \<Rightarrow> real \<Rightarrow> int \<Rightarrow> real \<Rightarrow> real \<Rightarrow> block" where
  "example_block t sz fl y0 h =
     \<lparr> block_text = t, bbox = (72, y0, 300, y0 + sz), font_name = ''Helvetica'',
       font_size = sz, flags = fl, page_height = h, page_width = 612,
       relative_y = y0 / h, is_bold = (fl AND 16 \<noteq> 0), is_italic = (fl AND 2 \<noteq> 0),
       page = None \<rparr>"

text \<open>The two-span scenario of the specification, on a page of height 800.\<close>

definition scenario_page :: page where
  "scenario_page =
     example_page 800 [example_span ''Introduction'' 18 16 50,
                       example_span ''This is body text.'' 12 0 100]"

definition intro_block :: block where
  "intro_block = example_block ''Introduction'' 18 16 50 800"

definition body_block :: block where
  "body_block = example_block ''This is body text.'' 12 0 100 800"

text \<open>A page of height 792 with one span below its lower edge.\<close>

definition overflow_page :: page where
  "overflow_page = example_page 792 [example_span ''footer'' 12 0 900]"

text \<open>Three heading candidates: two numbered headings and a page number.\<close>

definition example_heading :: "string \<Rightarrow> nat \<Rightarrow> int \<Rightarrow> nat heading" where
  "example_heading t l p = \<lparr> heading_text = t, level = l, heading_page = p \<rparr>"

definition example_headings :: "nat heading list" where
  "example_headings =
     [example_heading ''1. Introduction'' 1 0, example_heading ''Page 3'' 2 0,
      example_heading ''2. A. Scope'' 2 3]"

text \<open>A document with the scenario page and a detector that reports the three candidates.\<close>

definition scenario_reader :: pdf_reader where
  "scenario_reader = \<lparr> pages = [scenario_page], metadata = None \<rparr>"

definition example_detector :: "block list \<Rightarrow> error + nat heading list" where
  "example_detector blocks = Inr example_headings"

text \<open>The scenario document with a metadata title, and the blocks of the scenario document.\<close>

definition titled_reader :: pdf_reader where
  "titled_reader =
     \<lparr> pages = [scenario_page], metadata = Some [(''title'', Some '' Annual Report '')] \<rparr>"

definition scenario_blocks :: "block list" where
  "scenario_blocks = snd (get_text_blocks_vectorized (pages scenario_reader))"

text \<open>
  A document with one blank page, and a form: its first span names four of the form
  indicators.
\<close>

definition blank_reader :: pdf_reader where
  "blank_reader =
     \<lparr> pages = [\<lparr> rect_height = 792, rect_width = 612, get_text = Some [] \<rparr>],
       metadata = None \<rparr>"

definition form_reader :: pdf_reader where
  "form_reader =
     \<lparr> pages = [example_page 792
                  [example_span ''Application form for grant of LTC advance'' 14 16 60,
                   example_span ''1. Name of the Government Servant'' 10 0 120]],
       metadata = None \<rparr>"

section \<open>Evaluating the examples\<close>

lemmas text_defs =
  strip_def lstrip_def rstrip_def is_space_def code_def

lemma scenario_page_blocks:
  "extract_blocks_from_page scenario_page = [intro_block, body_block]"
  by (simp add: scenario_page_def example_page_def example_span_def extract_blocks_from_page_def
      List.map_filter_def block_of_span_def get_default_def text_defs bbox1_def
      intro_block_def body_block_def example_block_def)

section \<open>The heading test\<close>

lemma is_heading_like_eq:
  "is_heading_like t fs b fl thr = (b * thr \<le> fs \<and> length (strip t) \<le> 100)"
  by (auto simp: is_heading_like_def Let_def)

text \<open>
  C1. The claim: a span of at most 100 characters is accepted iff its size reaches
  \<open>body_size * threshold\<close>, or it is bold and its size reaches \<open>body_size\<close>. The
  function returns False before it looks at the bold flag: a bold span of size 12 in a
  document of body size 12 is rejected at threshold 1.2.
\<close>

theorem is_heading_like_bold_body_size_rejected:
  "is_heading_like ''Intro'' 12 12 16 1.2 = False"
  by (simp add: is_heading_like_def)

section \<open>The font distribution\<close>

lemma np_median_eq:
  assumes "xs \<noteq> []"
  shows "np_median xs = median_spec xs"
proof -
  define s where "s = sort xs"
  define n where "n = length s"
  have n0: "0 < n" using assms by (simp add: n_def s_def)
  show ?thesis
  proof (cases "odd n")
    case True
    have "n div 2 < n" using n0 by simp
    then have "take 1 (drop (n div 2) s) = [s ! (n div 2)]"
      unfolding n_def by (simp add: take_Suc_conv_app_nth)
    then show ?thesis using True
      by (simp add: np_median_def median_spec_def Let_def np_mean_def
          s_def[symmetric] n_def[symmetric] odd_iff_mod_2_eq_one)
  next
    case False
    then have ev: "even n" by simp
    with n0 have n2: "2 \<le> n" by presburger
    then have i1: "n div 2 - 1 < n" and i2: "Suc (n div 2 - 1) = n div 2"
      and i3: "n div 2 < n" by auto
    have "drop (n div 2 - 1) s = s ! (n div 2 - 1) # drop (n div 2) s"
      using i1 i2 unfolding n_def by (metis Cons_nth_drop_Suc)
    moreover have "drop (n div 2) s = s ! (n div 2) # drop (Suc (n div 2)) s"
      using i3 unfolding n_def by (metis Cons_nth_drop_Suc)
    ultimately have "take 2 (drop (n div 2 - 1) s) = [s ! (n div 2 - 1), s ! (n div 2)]"
      by (simp add: numeral_2_eq_2)
    then show ?thesis using ev
      by (simp add: np_median_def median_spec_def Let_def np_mean_def
          s_def[symmetric] n_def[symmetric])
  qed
qed

text \<open>
  C2. For a non-empty sequence of blocks the body size is the median of the font sizes
  (the middle value of the sorted sizes, the mean of the two middle values for an even
  count); for the empty sequence the result is body size 12.0 with empty collections.
\<close>

theorem body_size_is_median:
  "(blocks \<noteq> [] \<longrightarrow>
      body_size (analyze_font_distribution blocks) = median_spec (map font_size blocks)) \<and>
   body_size (analyze_font_distribution []) = 12.0 \<and>
   sizes (analyze_font_distribution []) = [] \<and>
   percentiles (analyze_font_distribution []) = Map.empty \<and>
   unique_sizes (analyze_font_distribution []) = None \<and>
   size_counts (analyze_font_distribution []) = None"
  by (simp add: analyze_font_distribution_def Let_def np_median_eq)

theorem body_size_is_median_witness:
  "[intro_block, body_block] \<noteq> [] \<and>
   body_size (analyze_font_distribution [intro_block, body_block]) = 15"
  using body_size_is_median [of "[intro_block, body_block]"]
  by (simp add: median_spec_def intro_block_def body_block_def example_block_def)

section \<open>The span extractor\<close>

lemma block_of_span_relative_y:
  "block_of_span h w sp = Some b \<Longrightarrow>
     page_height b = h \<and> relative_y b = (if h > 0 then bbox1 (bbox b) / h else 0)"
  by (auto simp: block_of_span_def Let_def split: if_splits)

lemma extract_blocks_from_page_src:
  "b \<in> set (extract_blocks_from_page pg) \<Longrightarrow>
     \<exists>sp. block_of_span (rect_height pg) (rect_width pg) sp = Some b"
  by (auto simp: extract_blocks_from_page_def List.map_filter_def split: option.splits)

text \<open>
  C9, as amended. For every block extracted from a page, \<open>relative_y\<close> is the quotient
  of the upper edge \<open>y0\<close> of its bounding box by the page height when the height is
  positive, and 0 otherwise; no clamping takes place, and the value lies in the unit
  interval whenever \<open>y0\<close> lies on the page.
\<close>

theorem relative_y_is_quotient:
  assumes "b \<in> set (extract_blocks_from_page pg)"
  shows "relative_y b = (if rect_height pg > 0 then bbox1 (bbox b) / rect_height pg else 0) \<and>
         (0 \<le> bbox1 (bbox b) \<and> bbox1 (bbox b) \<le> rect_height pg \<longrightarrow>
            0 \<le> relative_y b \<and> relative_y b \<le> 1)"
proof -
  obtain sp where "block_of_span (rect_height pg) (rect_width pg) sp = Some b"
    using assms extract_blocks_from_page_src by blast
  then have "relative_y b = (if rect_height pg > 0 then bbox1 (bbox b) / rect_height pg else 0)"
    using block_of_span_relative_y by blast
  then show ?thesis by (auto simp: divide_le_eq_1)
qed

theorem relative_y_is_quotient_witness:
  "intro_block \<in> set (extract_blocks_from_page scenario_page) \<and>
   0 \<le> bbox1 (bbox intro_block) \<and> bbox1 (bbox intro_block) \<le> rect_height scenario_page \<and>
   relative_y intro_block = 1 / 16 \<and> 0 \<le> relative_y intro_block \<and> relative_y intro_block \<le> 1"
  using relative_y_is_quotient [of intro_block scenario_page]
  by (simp add: scenario_page_blocks)
    (simp add: intro_block_def example_block_def bbox1_def scenario_page_def example_page_def)

text \<open>
  C9, the claim as stated fails: a span whose upper edge is at 900 on a page of height
  792 gets \<open>relative_y = 900 / 792\<close>, which is above 1.
\<close>

theorem relative_y_exceeds_one:
  "map relative_y (extract_blocks_from_page overflow_page) = [25 / 22] \<and>
   \<not> ((25 / 22 :: real) \<le> 1)"
  by (simp add: overflow_page_def example_page_def example_span_def extract_blocks_from_page_def
      List.map_filter_def block_of_span_def get_default_def text_defs bbox1_def)

section \<open>Stripping\<close>

lemma rstrip_take: "\<exists>n. rstrip s = take n s"
proof -
  have "rstrip s = rev (drop (length (takeWhile is_space (rev s))) (rev s))"
    by (simp add: rstrip_def dropWhile_eq_drop)
  then show ?thesis by (metis rev_drop rev_rev_ident)
qed

lemma rstrip_chars_take: "\<exists>n. rstrip_chars cs s = take n s"
proof -
  have "rstrip_chars cs s = rev (drop (length (takeWhile (\<lambda>c. c \<in> set cs) (rev s))) (rev s))"
    by (simp add: rstrip_chars_def dropWhile_eq_drop)
  then show ?thesis by (metis rev_drop rev_rev_ident)
qed

lemma rstrip_last: "rstrip s \<noteq> [] \<Longrightarrow> \<not> is_space (last (rstrip s))"
  unfolding rstrip_def by (metis hd_dropWhile last_rev rev_is_Nil_conv)

lemma rstrip_chars_last: "rstrip_chars cs s \<noteq> [] \<Longrightarrow> last (rstrip_chars cs s) \<notin> set cs"
  unfolding rstrip_chars_def by (metis (mono_tags, lifting) hd_dropWhile last_rev rev_is_Nil_conv)

lemma lstrip_hd: "lstrip s \<noteq> [] \<Longrightarrow> \<not> is_space (hd (lstrip s))"
  unfolding lstrip_def by (rule hd_dropWhile)

lemma strip_hd: "strip s \<noteq> [] \<Longrightarrow> \<not> is_space (hd (strip s))"
proof -
  assume ne: "strip s \<noteq> []"
  obtain n where n: "strip s = take n (lstrip s)" unfolding strip_def using rstrip_take by blast
  with ne have "lstrip s \<noteq> []" "0 < n" by auto
  then show ?thesis using n lstrip_hd by (metis hd_take)
qed

lemma strip_last: "strip s \<noteq> [] \<Longrightarrow> \<not> is_space (last (strip s))"
  unfolding strip_def by (rule rstrip_last)

lemma lstrip_id: "s = [] \<or> \<not> is_space (hd s) \<Longrightarrow> lstrip s = s"
  unfolding lstrip_def by (cases s) auto

lemma rstrip_id: "s = [] \<or> \<not> is_space (last s) \<Longrightarrow> rstrip s = s"
  unfolding rstrip_def by (cases "rev s") (auto simp: last_rev[symmetric] simp del: last_rev)

lemma rstrip_chars_id: "s = [] \<or> last s \<notin> set cs \<Longrightarrow> rstrip_chars cs s = s"
  unfolding rstrip_chars_def by (cases "rev s") (auto simp: last_rev[symmetric] simp del: last_rev)

lemma strip_id: "s = [] \<or> (\<not> is_space (hd s) \<and> \<not> is_space (last s)) \<Longrightarrow> strip s = s"
  unfolding strip_def by (auto simp: lstrip_id rstrip_id)

lemma strip_idem: "strip (strip s) = strip s"
  using strip_hd strip_last strip_id by blast

section \<open>The candidate filter\<close>

lemma filter_loop_Cons_cases:
  "filter_loop mn mx (h # hs) acc seen = filter_loop mn mx hs acc seen \<or>
   (acc = [] \<and> filter_loop mn mx (h # hs) acc seen = []) \<or>
   (clean_heading_text (strip (heading_text h)) \<noteq> [] \<and>
    filter_loop mn mx (h # hs) acc seen =
     filter_loop mn mx hs (acc @ [cleaned_copy h])
       (insert (strip (lower (clean_heading_text (strip (heading_text h))))) seen))"
  by (simp add: Let_def cleaned_copy_def)

lemma filter_loop_shape:
  "\<exists>ys. subseq ys hs \<and> (\<forall>y \<in> set ys. clean_heading_text (strip (heading_text y)) \<noteq> []) \<and>
        filter_loop mn mx hs acc seen = acc @ map cleaned_copy ys"
proof (induction hs arbitrary: acc seen)
  case Nil
  show ?case by simp
next
  case (Cons h hs)
  let ?key = "strip (lower (clean_heading_text (strip (heading_text h))))"
  consider
    (skip) "filter_loop mn mx (h # hs) acc seen = filter_loop mn mx hs acc seen"
  | (form) "acc = []" "filter_loop mn mx (h # hs) acc seen = []"
  | (keep) "clean_heading_text (strip (heading_text h)) \<noteq> []"
      "filter_loop mn mx (h # hs) acc seen =
         filter_loop mn mx hs (acc @ [cleaned_copy h]) (insert ?key seen)"
    using filter_loop_Cons_cases [of mn mx h hs acc seen] by blast
  then show ?case
  proof cases
    case skip
    obtain ys where "subseq ys hs" "\<forall>y \<in> set ys. clean_heading_text (strip (heading_text y)) \<noteq> []"
      "filter_loop mn mx hs acc seen = acc @ map cleaned_copy ys"
      using Cons.IH by blast
    then show ?thesis using skip by (metis list_emb_Cons)
  next
    case form
    have "subseq [] (h # hs)" by simp
    then show ?thesis using form by (metis append_Nil empty_iff list.map(1) list.set(1))
  next
    case keep
    obtain ys where ys: "subseq ys hs" "\<forall>y \<in> set ys. clean_heading_text (strip (heading_text y)) \<noteq> []"
      "filter_loop mn mx hs (acc @ [cleaned_copy h]) (insert ?key seen)
         = (acc @ [cleaned_copy h]) @ map cleaned_copy ys"
      using Cons.IH by blast
    have "subseq (h # ys) (h # hs)" using ys(1) by simp
    moreover have "\<forall>y \<in> set (h # ys). clean_heading_text (strip (heading_text y)) \<noteq> []"
      using ys(2) keep(1) by simp
    moreover have "filter_loop mn mx (h # hs) acc seen = acc @ map cleaned_copy (h # ys)"
      using keep(2) ys(3) by simp
    ultimately show ?thesis by blast
  qed
qed

lemma filter_heading_candidates_shape:
  "\<exists>ys. subseq ys hs \<and> (\<forall>y \<in> set ys. clean_heading_text (strip (heading_text y)) \<noteq> []) \<and>
        filter_heading_candidates hs mn mx = map cleaned_copy ys"
proof (cases "hs = []")
  case True
  then show ?thesis by (simp add: filter_heading_candidates_def)
next
  case False
  then show ?thesis
    using filter_loop_shape [of hs mn mx "[]" "{}"] by (simp add: filter_heading_candidates_def)
qed

lemma list_all2_cleaned_copy:
  "list_all2 (\<lambda>h' h. level h' = level h \<and> heading_page h' = heading_page h \<and>
                       heading.more h' = heading.more h) (map cleaned_copy ys) ys"
  by (induction ys) (simp_all add: cleaned_copy_def)

lemma subseq_set: "subseq xs ys \<Longrightarrow> set xs \<subseteq> set ys"
  by (induction rule: list_emb.induct) auto

lemma filtered_text:
  assumes "h' \<in> set (filter_heading_candidates hs mn mx)"
  shows "\<exists>h \<in> set hs. clean_heading_text (strip (heading_text h)) \<noteq> [] \<and>
           heading_text h' = clean_heading_text (strip (heading_text h)) @ '' ''"
proof -
  obtain ys where ys: "subseq ys hs"
    "\<forall>y \<in> set ys. clean_heading_text (strip (heading_text y)) \<noteq> []"
    "filter_heading_candidates hs mn mx = map cleaned_copy ys"
    using filter_heading_candidates_shape [of hs mn mx] by blast
  from assms have "h' \<in> cleaned_copy ` set ys" unfolding ys(3) by simp
  then obtain y where y: "y \<in> set ys" "h' = cleaned_copy y" by blast
  have "set ys \<subseteq> set hs" using ys(1) by (rule subseq_set)
  then have "y \<in> set hs" using y(1) by blast
  moreover have "clean_heading_text (strip (heading_text y)) \<noteq> []" using ys(2) y(1) by blast
  moreover have "heading_text h' = clean_heading_text (strip (heading_text y)) @ '' ''"
    unfolding y(2) by (simp add: cleaned_copy_def)
  ultimately show ?thesis by blast
qed

lemma outline_cases:
  assumes "it \<in> set (outline (extract_outline_from_pdf detect fn loaded))"
  shows "\<exists>rd hs. loaded = Inr rd \<and>
           detect (snd (get_text_blocks_vectorized (pages rd))) = Inr hs \<and>
           it \<in> set (map outline_item_of (filter_heading_candidates hs 3 200))"
proof (cases loaded)
  case (Inl e)
  with assms show ?thesis by (simp add: extract_outline_from_pdf_def failure_result_def)
next
  case (Inr rd)
  let ?bs = "snd (get_text_blocks_vectorized (pages rd))"
  show ?thesis
  proof (cases "should_have_empty_outline ?bs fn")
    case True
    with assms Inr show ?thesis by (simp add: extract_outline_from_pdf_def Let_def)
  next
    case False
    show ?thesis
    proof (cases "detect ?bs")
      case (Inl e)
      with assms Inr False show ?thesis
        by (simp add: extract_outline_from_pdf_def Let_def failure_result_def)
    next
      case (Inr hs)
      with assms \<open>loaded = Inr rd\<close> False show ?thesis
        by (simp add: extract_outline_from_pdf_def Let_def)
    qed
  qed
qed

lemma example_headings_filtered:
  "filter_heading_candidates example_headings 3 200 =
     [example_heading ''Introduction '' 1 0, example_heading ''A. Scope '' 2 3]"
  by code_simp

lemma example_headings_filtered_twice:
  "filter_heading_candidates (filter_heading_candidates example_headings 3 200) 3 200 =
     [example_heading ''Introduction '' 1 0, example_heading ''Scope '' 2 3]"
  unfolding example_headings_filtered by code_simp

lemma example_outline:
  "extract_outline_from_pdf example_detector ''sample'' (Inr scenario_reader) =
     \<lparr> title = ''Introduction  '',
       outline = [\<lparr> item_level = 1, item_text = ''Introduction '', item_page = 0 \<rparr>,
                  \<lparr> item_level = 2, item_text = ''A. Scope '', item_page = 3 \<rparr>] \<rparr>"
  by code_simp

text \<open>
  C6, the claim as stated fails: the filter is not idempotent. Filtering the candidate
  \<open>2. A. Scope\<close> gives \<open>A. Scope\<close>, and filtering that again gives \<open>Scope\<close>.
\<close>

theorem filter_not_idempotent:
  "filter_heading_candidates (filter_heading_candidates example_headings 3 200) 3 200 \<noteq>
   filter_heading_candidates example_headings 3 200"
  unfolding example_headings_filtered_twice
  unfolding example_headings_filtered
  by (simp add: example_heading_def)

text \<open>
  C6, as amended. The filter preserves order: its output is the list of cleaned copies of
  a subsequence of its input, in the order of the input.
\<close>

theorem filter_order_preserving:
  "\<exists>ys. subseq ys hs \<and> filter_heading_candidates hs mn mx = map cleaned_copy ys"
  using filter_heading_candidates_shape [of hs mn mx] by blast

theorem filter_order_preserving_witness:
  "\<exists>ys. subseq ys example_headings \<and>
     [example_heading ''Introduction '' 1 0, example_heading ''A. Scope '' 2 3] =
       map cleaned_copy ys"
  using filter_order_preserving [of example_headings 3 200]
  by (simp add: example_headings_filtered)

text \<open>
  C8. The candidates that survive the filter correspond, in order, to a subsequence of
  the input candidates, and each has the level, the page and every other field of its
  input candidate; only the text differs.
\<close>

theorem filter_preserves_level_and_page:
  "\<exists>ys. subseq ys hs \<and>
     list_all2 (\<lambda>h' h. level h' = level h \<and> heading_page h' = heading_page h \<and>
                       heading.more h' = heading.more h)
       (filter_heading_candidates hs mn mx) ys"
proof -
  obtain ys where ys: "subseq ys hs" "filter_heading_candidates hs mn mx = map cleaned_copy ys"
    using filter_heading_candidates_shape [of hs mn mx] by blast
  have "list_all2 (\<lambda>h' h. level h' = level h \<and> heading_page h' = heading_page h \<and>
                       heading.more h' = heading.more h) (filter_heading_candidates hs mn mx) ys"
    unfolding ys(2) by (rule list_all2_cleaned_copy)
  with ys(1) show ?thesis by (rule_tac x = ys in exI) simp
qed

theorem filter_preserves_level_and_page_witness:
  "\<exists>ys. subseq ys example_headings \<and>
     list_all2 (\<lambda>h' h. level h' = level h \<and> heading_page h' = heading_page h \<and>
                       heading.more h' = heading.more h)
       [example_heading ''Introduction '' 1 0, example_heading ''A. Scope '' 2 3] ys"
  using filter_preserves_level_and_page [of example_headings 3 200]
  by (simp add: example_headings_filtered)

text \<open>
  C10. The text of every candidate the filter emits is the cleaned text of an input
  candidate followed by one space, and so is the text of every outline entry of the
  per-document result, which therefore ends in a space.
\<close>

theorem outline_text_cleaned_plus_space:
  "(\<forall>h' \<in> set (filter_heading_candidates hs mn mx).
      \<exists>h \<in> set hs. clean_heading_text (strip (heading_text h)) \<noteq> [] \<and>
        heading_text h' = clean_heading_text (strip (heading_text h)) @ '' '') \<and>
   (\<forall>it \<in> set (outline (extract_outline_from_pdf detect fn loaded)).
      \<exists>rd raw h. loaded = Inr rd \<and>
        detect (snd (get_text_blocks_vectorized (pages rd))) = Inr raw \<and> h \<in> set raw \<and>
        clean_heading_text (strip (heading_text h)) \<noteq> [] \<and>
        item_text it = clean_heading_text (strip (heading_text h)) @ '' '' \<and>
        last (item_text it) = CHR '' '')"
proof (intro conjI ballI)
  fix h' assume "h' \<in> set (filter_heading_candidates hs mn mx)"
  then show "\<exists>h \<in> set hs. clean_heading_text (strip (heading_text h)) \<noteq> [] \<and>
        heading_text h' = clean_heading_text (strip (heading_text h)) @ '' ''"
    by (rule filtered_text)
next
  fix it assume "it \<in> set (outline (extract_outline_from_pdf detect fn loaded))"
  then obtain rd raw where r: "loaded = Inr rd"
    "detect (snd (get_text_blocks_vectorized (pages rd))) = Inr raw"
    "it \<in> set (map outline_item_of (filter_heading_candidates raw 3 200))"
    using outline_cases by blast
  then obtain h' where h': "h' \<in> set (filter_heading_candidates raw 3 200)"
    "it = outline_item_of h'" by auto
  then obtain h where h: "h \<in> set raw" "clean_heading_text (strip (heading_text h)) \<noteq> []"
    "heading_text h' = clean_heading_text (strip (heading_text h)) @ '' ''"
    using filtered_text by blast
  have t: "item_text it = clean_heading_text (strip (heading_text h)) @ '' ''"
    using h' h(3) by (simp add: outline_item_of_def)
  then have l: "last (item_text it) = CHR '' ''" by simp
  have "loaded = Inr rd \<and>
        detect (snd (get_text_blocks_vectorized (pages rd))) = Inr raw \<and> h \<in> set raw \<and>
        clean_heading_text (strip (heading_text h)) \<noteq> [] \<and>
        item_text it = clean_heading_text (strip (heading_text h)) @ '' '' \<and>
        last (item_text it) = CHR '' ''"
    using r(1,2) h(1,2) t l by simp
  then show "\<exists>rd raw h. loaded = Inr rd \<and>
        detect (snd (get_text_blocks_vectorized (pages rd))) = Inr raw \<and> h \<in> set raw \<and>
        clean_heading_text (strip (heading_text h)) \<noteq> [] \<and>
        item_text it = clean_heading_text (strip (heading_text h)) @ '' '' \<and>
        last (item_text it) = CHR '' ''"
    by (intro exI)
qed

theorem outline_text_cleaned_plus_space_witness:
  "outline (extract_outline_from_pdf example_detector ''sample'' (Inr scenario_reader)) \<noteq> [] \<and>
   last (item_text (hd (outline
     (extract_outline_from_pdf example_detector ''sample'' (Inr scenario_reader))))) = CHR '' ''"
proof -
  let ?out = "outline (extract_outline_from_pdf example_detector ''sample'' (Inr scenario_reader))"
  have ne: "?out \<noteq> []" by (simp add: example_outline)
  then have "hd ?out \<in> set ?out" by (rule hd_in_set)
  then have "last (item_text (hd ?out)) = CHR '' ''"
    using outline_text_cleaned_plus_space
      [of example_headings 3 200 example_detector "''sample''" "Inr scenario_reader"]
    by blast
  with ne show ?thesis by (rule conjI)
qed

section \<open>The title cascade\<close>

lemma get_title_from_metadata_stripped:
  assumes "get_title_from_metadata rd = Inr (Some c)"
  shows "strip c = c"
proof -
  from assms obtain t0 where "c = strip t0"
    by (auto simp: get_title_from_metadata_def Let_def split: option.splits if_splits)
  then show ?thesis by (simp add: strip_idem)
qed

lemma strategy_1_shape:
  assumes "extract_title_strategy_1 blocks cutoff = Some t"
  shows "\<exists>upper_blocks title_block max_size.
           set upper_blocks \<subseteq> set blocks \<and>
           is_valid_title (title_candidate_1 upper_blocks title_block max_size) \<and>
           t = title_candidate_1 upper_blocks title_block max_size @ ''  ''"
proof -
  define fp where "fp = filter (\<lambda>b. block_page b = 0) blocks"
  define cy where "cy = page_height (hd fp) * cutoff"
  define upper where "upper = filter (\<lambda>b. bbox1 (bbox b) \<le> cy) fp"
  define ub where "ub = (if upper = [] then take 3 (sort_key (\<lambda>b. bbox1 (bbox b)) fp) else upper)"
  define ms where "ms = Max (set (map font_size ub))"
  define lb where "lb = sort_key (\<lambda>b. bbox1 (bbox b)) (filter (\<lambda>b. font_size b = ms) ub)"
  have sub: "set ub \<subseteq> set blocks"
  proof -
    have "set (take 3 (sort_key (\<lambda>b. bbox1 (bbox b)) fp)) \<subseteq> set fp"
      using set_take_subset [of 3 "sort_key (\<lambda>b. bbox1 (bbox b)) fp"] by simp
    then have "set ub \<subseteq> set fp" by (auto simp: ub_def upper_def)
    then show ?thesis by (auto simp: fp_def)
  qed
  have e: "extract_title_strategy_1 blocks cutoff =
      (if blocks = [] then None else if fp = [] then None else if ub = [] then None
       else case lb of [] \<Rightarrow> None
            | tb # rest \<Rightarrow> if is_valid_title (title_candidate_1 ub tb ms)
                            then Some (title_candidate_1 ub tb ms @ ''  '') else None)"
    unfolding extract_title_strategy_1_def Let_def fp_def cy_def upper_def ub_def ms_def lb_def
    by (rule refl)
  from assms obtain tb where "is_valid_title (title_candidate_1 ub tb ms)"
      "t = title_candidate_1 ub tb ms @ ''  ''"
    unfolding e by (auto split: if_splits list.splits)
  with sub show ?thesis by blast
qed

lemma first_line_scan_shape:
  "first_line_scan bs = Some t \<Longrightarrow>
     \<exists>b \<in> set bs. is_valid_title (strip (block_text b)) \<and> t = strip (block_text b) @ ''  ''"
proof (induction bs)
  case Nil
  then show ?case by simp
next
  case (Cons b bs)
  show ?case
  proof (cases "first_line_scan (b # bs) = first_line_scan bs")
    case True
    with Cons show ?thesis by auto
  next
    case False
    then have "is_valid_title (strip (block_text b))"
      and "first_line_scan (b # bs) = Some (strip (block_text b) @ ''  '')"
      by (auto simp: Let_def split: if_splits)
    with Cons.prems show ?thesis by auto
  qed
qed

lemma strategy_3_shape:
  assumes "extract_title_strategy_3 blocks = Some t"
  shows "\<exists>b \<in> set blocks. is_valid_title (strip (block_text b)) \<and> t = strip (block_text b) @ ''  ''"
proof -
  let ?sorted = "sort_key (\<lambda>b. (block_page b, bbox1 (bbox b))) blocks"
  from assms have "first_line_scan (take 20 ?sorted) = Some t"
    by (auto simp: extract_title_strategy_3_def Let_def split: if_splits)
  then obtain b where b: "b \<in> set (take 20 ?sorted)" "is_valid_title (strip (block_text b))"
    "t = strip (block_text b) @ ''  ''"
    using first_line_scan_shape by blast
  have "set (take 20 ?sorted) \<subseteq> set blocks" using set_take_subset [of 20 ?sorted] by simp
  with b show ?thesis by blast
qed

lemma strategy_2_shape:
  assumes "extract_title_strategy_2 rd = Some t"
  shows "\<exists>c. get_title_from_metadata rd = Inr (Some c) \<and> is_valid_title c \<and> t = c @ ''  ''"
proof -
  from assms obtain c where c: "get_title_from_metadata rd = Inr (Some c)" "is_valid_title c"
    "t = strip c @ ''  ''"
    by (auto simp: extract_title_strategy_2_def split: sum.splits option.splits if_splits)
  then show ?thesis using get_title_from_metadata_stripped by auto
qed

lemma scenario_strategy_1: "extract_title_strategy_1 scenario_blocks 0.15 = Some ''Introduction  ''"
  by code_simp

lemma scenario_strategy_3: "extract_title_strategy_3 scenario_blocks = Some ''Introduction  ''"
  by code_simp

lemma titled_strategy_2: "extract_title_strategy_2 titled_reader = Some ''Annual Report  ''"
  by code_simp

lemma titled_metadata: "get_title_from_metadata titled_reader = Inr (Some ''Annual Report'')"
  by code_simp

text \<open>
  C7. A title accepted by strategy 1, 2 or 3 is the accepted candidate (the stitched
  text of strategy 1, the metadata title of strategy 2, the stripped block text of
  strategy 3, each passing the validity check) followed by exactly two spaces.
\<close>

theorem accepted_titles_two_spaces:
  "(extract_title_strategy_1 blocks cutoff = Some t \<longrightarrow>
      (\<exists>upper_blocks title_block max_size.
         set upper_blocks \<subseteq> set blocks \<and>
         is_valid_title (title_candidate_1 upper_blocks title_block max_size) \<and>
         t = title_candidate_1 upper_blocks title_block max_size @ ''  '')) \<and>
   (extract_title_strategy_2 rd = Some t \<longrightarrow>
      (\<exists>c. get_title_from_metadata rd = Inr (Some c) \<and> is_valid_title c \<and> t = c @ ''  '')) \<and>
   (extract_title_strategy_3 blocks = Some t \<longrightarrow>
      (\<exists>b \<in> set blocks. is_valid_title (strip (block_text b)) \<and>
         t = strip (block_text b) @ ''  ''))"
  using strategy_1_shape strategy_2_shape strategy_3_shape by blast

theorem accepted_titles_two_spaces_witness:
  "extract_title_strategy_1 scenario_blocks 0.15 = Some ''Introduction  '' \<and>
   extract_title_strategy_2 titled_reader = Some ''Annual Report  '' \<and>
   extract_title_strategy_3 scenario_blocks = Some ''Introduction  '' \<and>
   (\<exists>upper_blocks title_block max_size.
      set upper_blocks \<subseteq> set scenario_blocks \<and>
      is_valid_title (title_candidate_1 upper_blocks title_block max_size) \<and>
      ''Introduction  '' = title_candidate_1 upper_blocks title_block max_size @ ''  '') \<and>
   (\<exists>c. get_title_from_metadata titled_reader = Inr (Some c) \<and> is_valid_title c \<and>
      ''Annual Report  '' = c @ ''  '') \<and>
   (\<exists>b \<in> set scenario_blocks. is_valid_title (strip (block_text b)) \<and>
      ''Introduction  '' = strip (block_text b) @ ''  '')"
  using accepted_titles_two_spaces
          [of scenario_blocks "0.15" "''Introduction  ''" titled_reader]
        accepted_titles_two_spaces
          [of scenario_blocks "0.15" "''Annual Report  ''" titled_reader]
        scenario_strategy_1 scenario_strategy_3 titled_strategy_2
  by blast

section \<open>Documents without spans\<close>

lemma strategy_1_empty: "extract_title_strategy_1 [] cutoff = None"
  by (simp add: extract_title_strategy_1_def)

lemma strategy_3_empty: "extract_title_strategy_3 [] = None"
  by (simp add: extract_title_strategy_3_def)

lemma title_without_blocks:
  "extract_title_with_fallback [] rd filename =
     (if filename \<noteq> [] \<and> contains (lower filename) ''file05'' then []
      else case extract_title_strategy_2 rd of
             Some t \<Rightarrow> t
           | None \<Rightarrow> if filename \<noteq> [] then filename_title filename else ''Untitled Document'')"
proof (cases "extract_title_strategy_2 rd")
  case None
  then show ?thesis
    by (simp add: extract_title_with_fallback_def strategy_1_empty strategy_3_empty truthy_def)
next
  case (Some t)
  from strategy_2_shape [OF Some] have "t \<noteq> []" by auto
  with Some show ?thesis
    by (simp add: extract_title_with_fallback_def strategy_1_empty Let_def truthy_def)
qed

lemma blank_reader_blocks: "snd (get_text_blocks_vectorized (pages blank_reader)) = []"
  by code_simp

text \<open>
  C3, the claim as stated fails: for a blank document named \<open>annual_report\<close> the
  title is not the file name stem but \<open>annual report\<close> followed by two spaces.
\<close>

theorem zero_spans_title_not_filename:
  "snd (get_text_blocks_vectorized (pages blank_reader)) = [] \<and>
   title (extract_outline_from_pdf example_detector ''annual_report'' (Inr blank_reader)) =
     ''annual report  '' \<and>
   ''annual report  '' \<noteq> ''annual_report''"
  by code_simp

text \<open>
  C3, as amended. For a document without spans the outline is empty, and the title is:
  empty when the file name contains \<open>file05\<close>; else the title of strategy 2 (a valid
  metadata title followed by two spaces) when there is one; else the file name with
  \<open>.pdf\<close> removed and \<open>_\<close>, \<open>-\<close> replaced by spaces, stripped and followed by two
  spaces; and \<open>Untitled Document\<close> when that is empty.
\<close>

theorem zero_spans_result:
  assumes "snd (get_text_blocks_vectorized (pages rd)) = []"
  shows "extract_outline_from_pdf detect filename (Inr rd) =
     \<lparr> title =
         (if filename \<noteq> [] \<and> contains (lower filename) ''file05'' then []
          else case extract_title_strategy_2 rd of
                 Some t \<Rightarrow> t
               | None \<Rightarrow>
                   if filename \<noteq> [] \<and>
                      strip (replace ''-'' '' '' (replace ''_'' '' ''
                               (replace ''.pdf'' [] filename))) \<noteq> []
                   then strip (replace ''-'' '' '' (replace ''_'' '' ''
                                 (replace ''.pdf'' [] filename))) @ ''  ''
                   else ''Untitled Document''),
       outline = [] \<rparr>"
  using assms
  by (simp add: extract_outline_from_pdf_def Let_def should_have_empty_outline_def
      title_without_blocks filename_title_def split: option.splits)

theorem zero_spans_result_witness:
  "snd (get_text_blocks_vectorized (pages blank_reader)) = [] \<and>
   extract_outline_from_pdf example_detector ''annual_report'' (Inr blank_reader) =
     \<lparr> title = ''annual report  '', outline = [] \<rparr>"
proof -
  have "extract_outline_from_pdf example_detector ''annual_report'' (Inr blank_reader) =
     \<lparr> title = ''annual report  '', outline = [] \<rparr>"
    unfolding zero_spans_result [OF blank_reader_blocks, of example_detector "''annual_report''"]
    by code_simp
  with blank_reader_blocks show ?thesis by (rule conjI)
qed

section \<open>The empty-outline gate\<close>

lemma join_append:
  "xs \<noteq> [] \<Longrightarrow> zs \<noteq> [] \<Longrightarrow> join sep (xs @ zs) = join sep xs @ sep @ join sep zs"
proof (induction sep xs rule: join.induct)
  case (1 sep)
  then show ?case by simp
next
  case (2 sep x)
  then show ?case by (cases zs) simp_all
next
  case (3 sep x y ys)
  then show ?case by simp
qed

lemma join_prefix: "prefix xs ys \<Longrightarrow> prefix (join sep xs) (join sep ys)"
proof -
  assume "prefix xs ys"
  then obtain zs where ys: "ys = xs @ zs" by (auto simp: prefix_def)
  show ?thesis
  proof (cases "xs = [] \<or> zs = []")
    case True
    then show ?thesis using ys by auto
  next
    case False
    then show ?thesis using ys by (simp add: join_append)
  qed
qed

lemma contains_prefix_mono: "prefix s s' \<Longrightarrow> contains s p \<Longrightarrow> contains s' p"
  unfolding contains_def prefix_def sublist_def by (metis append.assoc)

lemma take_prefix: "prefix xs ys \<Longrightarrow> prefix (take n xs) (take n ys)"
  by (auto simp: prefix_def)

lemma length_filter_mono:
  "(\<And>x. x \<in> set xs \<Longrightarrow> P x \<Longrightarrow> Q x) \<Longrightarrow> length (filter P xs) \<le> length (filter Q xs)"
  by (induction xs) auto

lemma form_count_prefix_mono:
  assumes "prefix bs bs'"
  shows "form_count bs \<le> form_count bs'"
proof -
  let ?t = "\<lambda>bs. join '' '' (map (\<lambda>b. lower (block_text b)) (take 20 bs))"
  have "prefix (map (\<lambda>b. lower (block_text b)) (take 20 bs))
               (map (\<lambda>b. lower (block_text b)) (take 20 bs'))"
    using assms by (intro map_mono_prefix take_prefix)
  then have "prefix (?t bs) (?t bs')" by (rule join_prefix)
  then have "\<And>i. contains (?t bs) i \<Longrightarrow> contains (?t bs') i"
    by (rule contains_prefix_mono)
  then show ?thesis unfolding form_count_def Let_def by (intro length_filter_mono)
qed

lemma page_blocks_page: "b \<in> set (page_blocks n pg) \<Longrightarrow> block_page b = int n"
  by (auto simp: page_blocks_def block_page_def get_default_def)

lemma later_pages:
  "b \<in> set (concat (map (\<lambda>(n, pg). page_blocks n pg) (enumerate k pgs))) \<Longrightarrow>
     int k \<le> block_page b"
proof (induction pgs arbitrary: k)
  case Nil
  then show ?case by simp
next
  case (Cons pg pgs)
  from Cons.prems consider "b \<in> set (page_blocks k pg)"
    | "b \<in> set (concat (map (\<lambda>(n, pg). page_blocks n pg) (enumerate (Suc k) pgs)))"
    by auto
  then show ?case
  proof cases
    case 1
    then show ?thesis by (simp add: page_blocks_page)
  next
    case 2
    then have "int (Suc k) \<le> block_page b" by (rule Cons.IH)
    then show ?thesis by simp
  qed
qed

lemma first_page_blocks_prefix:
  "prefix (filter (\<lambda>b. block_page b = 0) (all_blocks_of pgs)) (all_blocks_of pgs)"
proof (cases pgs)
  case Nil
  then show ?thesis by (simp add: all_blocks_of_def)
next
  case (Cons pg rest)
  let ?later = "concat (map (\<lambda>(n, pg). page_blocks n pg) (enumerate (Suc 0) rest))"
  have a: "all_blocks_of pgs = page_blocks 0 pg @ ?later"
    by (simp add: all_blocks_of_def Cons)
  have "filter (\<lambda>b. block_page b = 0) (page_blocks 0 pg) = page_blocks 0 pg"
    using page_blocks_page [of _ 0 pg] by (simp add: filter_id_conv)
  moreover have "filter (\<lambda>b. block_page b = 0) ?later = []"
    using later_pages [of _ "Suc 0" rest] by (fastforce simp: filter_empty_conv)
  ultimately have "filter (\<lambda>b. block_page b = 0) (all_blocks_of pgs) = page_blocks 0 pg"
    by (simp add: a)
  then show ?thesis by (simp add: a)
qed

lemma form_reader_count:
  "form_count (filter (\<lambda>b. block_page b = 0)
                 (snd (get_text_blocks_vectorized (pages form_reader)))) = 6"
  by code_simp

lemma example_detector_form:
  "example_detector (snd (get_text_blocks_vectorized (pages form_reader))) = Inr example_headings"
  by (simp add: example_detector_def)

text \<open>
  C4. When the lowercase texts of the first 20 spans of the first page, joined by
  spaces, contain at least three of the six form indicators, the gate fires and the
  outline is empty, whatever the heading detector reports.
\<close>

theorem form_gate_empties_outline:
  assumes "3 \<le> form_count (filter (\<lambda>b. block_page b = 0)
                              (snd (get_text_blocks_vectorized (pages rd))))"
  shows "outline (extract_outline_from_pdf detect filename (Inr rd)) = []"
proof -
  let ?all = "snd (get_text_blocks_vectorized (pages rd))"
  have all: "?all = all_blocks_of (pages rd)" by (simp add: get_text_blocks_vectorized_def Let_def)
  have "form_count (filter (\<lambda>b. block_page b = 0) ?all) \<le> form_count ?all"
    unfolding all by (intro form_count_prefix_mono first_page_blocks_prefix)
  with assms have "3 \<le> form_count ?all" by simp
  then have "should_have_empty_outline ?all filename"
    by (simp add: should_have_empty_outline_def)
  then show ?thesis by (simp add: extract_outline_from_pdf_def Let_def)
qed

theorem form_gate_empties_outline_witness:
  "3 \<le> form_count (filter (\<lambda>b. block_page b = 0)
                      (snd (get_text_blocks_vectorized (pages form_reader)))) \<and>
   example_detector (snd (get_text_blocks_vectorized (pages form_reader))) = Inr example_headings \<and>
   filter_heading_candidates example_headings 3 200 \<noteq> [] \<and>
   outline (extract_outline_from_pdf example_detector ''sample'' (Inr form_reader)) = []"
proof -
  have c: "3 \<le> form_count (filter (\<lambda>b. block_page b = 0)
                      (snd (get_text_blocks_vectorized (pages form_reader))))"
    by (simp add: form_reader_count)
  have "filter_heading_candidates example_headings 3 200 \<noteq> []"
    by (simp add: example_headings_filtered)
  then show ?thesis
    using c example_detector_form
      form_gate_empties_outline [OF c, of example_detector "''sample''"]
    by simp
qed

section \<open>Cleaning heading text\<close>

lemma is_space_blank: "is_space CHR '' ''"
  by (simp add: is_space_def code_def)

lemma rmatch_star_cls:
  "rmatch (Star (Cls p)) (prev, s) \<noteq> [] \<and>
   snd (hd (rmatch (Star (Cls p)) (prev, s))) = dropWhile p s"
proof (induction s arbitrary: prev)
  case Nil
  show ?case by simp
next
  case (Cons c cs)
  show ?case
  proof (cases "p c")
    case True
    then have "rmatch (Star (Cls p)) (prev, c # cs) =
        rmatch (Star (Cls p)) (Some c, cs) @ [(prev, c # cs)]" by simp
    moreover obtain k ks where "rmatch (Star (Cls p)) (Some c, cs) = k # ks"
      using Cons.IH [of "Some c"] by (cases "rmatch (Star (Cls p)) (Some c, cs)") blast+
    moreover have "snd (hd (rmatch (Star (Cls p)) (Some c, cs))) = dropWhile p cs"
      using Cons.IH [of "Some c"] by blast
    ultimately show ?thesis using True by (simp del: rmatch.simps)
  next
    case False
    then show ?thesis by simp
  qed
qed

lemma rmatch_whitespace_no:
  "\<not> is_space c \<Longrightarrow> rmatch rx_whitespace (prev, c # cs) = []"
  by (simp add: rx_whitespace_def Plus_def)

lemma rmatch_whitespace_yes:
  assumes "is_space c"
  shows "\<exists>k ks. rmatch rx_whitespace (prev, c # cs) = k # ks \<and> snd k = dropWhile is_space cs"
proof -
  have "rmatch rx_whitespace (prev, c # cs) = rmatch (Star (Cls is_space)) (Some c, cs)"
    using assms by (simp add: rx_whitespace_def Plus_def)
  moreover obtain k ks where "rmatch (Star (Cls is_space)) (Some c, cs) = k # ks"
    using rmatch_star_cls [of is_space "Some c" cs] by (cases "rmatch (Star (Cls is_space)) (Some c, cs)") auto
  moreover have "snd (hd (rmatch (Star (Cls is_space)) (Some c, cs))) = dropWhile is_space cs"
    using rmatch_star_cls [of is_space "Some c" cs] by simp
  ultimately show ?thesis by auto
qed

lemma sub_from_whitespace: "sub_from rx_whitespace '' '' (prev, s) = collapse_ws s"
proof (induction s arbitrary: prev rule: collapse_ws.induct)
  case 1
  show ?case by (simp add: sub_from.simps)
next
  case (2 c cs)
  show ?case
  proof (cases "is_space c")
    case True
    then obtain k ks where k: "rmatch rx_whitespace (prev, c # cs) = k # ks"
      "snd k = dropWhile is_space cs"
      using rmatch_whitespace_yes by blast
    have len: "length (snd k) < length (c # cs)"
      using k(2) by (simp add: length_dropWhile_le le_imp_less_Suc)
    have "sub_from rx_whitespace '' '' (prev, c # cs) = '' '' @ sub_from rx_whitespace '' '' k"
      using k(1) len by (subst sub_from.simps) simp
    moreover have "sub_from rx_whitespace '' '' k = collapse_ws (dropWhile is_space cs)"
      using "2.IH"(1) [OF True, of "fst k"] k(2) by (cases k) simp
    ultimately show ?thesis using True by simp
  next
    case False
    have "sub_from rx_whitespace '' '' (prev, c # cs) =
            c # sub_from rx_whitespace '' '' (Some c, cs)"
      using rmatch_whitespace_no [OF False] by (subst sub_from.simps) simp
    then show ?thesis using "2.IH"(2) [OF False] False by simp
  qed
qed

lemma re_sub_whitespace: "re_sub rx_whitespace '' '' s = collapse_ws s"
  by (simp add: re_sub_def sub_from_whitespace)

lemma collapse_ws_hd: "s \<noteq> [] \<Longrightarrow> \<not> is_space (hd s) \<Longrightarrow>
    collapse_ws s \<noteq> [] \<and> hd (collapse_ws s) = hd s"
  by (cases s) auto

lemma single_spaced_Cons:
  "single_spaced (c # s) \<longleftrightarrow>
     (is_space c \<longrightarrow> c = CHR '' '' \<and> (s = [] \<or> \<not> is_space (hd s))) \<and> single_spaced s"
  by (cases s) auto

lemma single_spaced_collapse_ws: "single_spaced (collapse_ws s)"
proof (induction s rule: collapse_ws.induct)
  case 1
  show ?case by simp
next
  case (2 c cs)
  show ?case
  proof (cases "is_space c")
    case True
    let ?d = "dropWhile is_space cs"
    have "collapse_ws ?d = [] \<or> \<not> is_space (hd (collapse_ws ?d))"
    proof (cases "?d = []")
      case True
      have "collapse_ws [] = []" by simp
      then have "collapse_ws ?d = []" unfolding True .
      then show ?thesis by blast
    next
      case False
      then have "\<not> is_space (hd ?d)" by (rule hd_dropWhile)
      with False show ?thesis using collapse_ws_hd by simp
    qed
    then show ?thesis using True "2.IH"(1) by (simp add: single_spaced_Cons)
  next
    case False
    then show ?thesis using "2.IH"(2) by (simp add: single_spaced_Cons)
  qed
qed

lemma collapse_ws_single_spaced: "single_spaced s \<Longrightarrow> collapse_ws s = s"
proof (induction s rule: single_spaced.induct)
  case 1
  show ?case by simp
next
  case (2 c)
  then show ?case by auto
next
  case (3 c d r)
  then show ?case by auto
qed

lemma single_spaced_tl: "single_spaced (c # s) \<Longrightarrow> single_spaced s"
  by (simp add: single_spaced_Cons)

lemma single_spaced_drop: "single_spaced s \<Longrightarrow> single_spaced (drop n s)"
proof (induction n arbitrary: s)
  case 0
  then show ?case by simp
next
  case (Suc n)
  then show ?case by (cases s) (auto dest: single_spaced_tl)
qed

lemma single_spaced_take: "single_spaced s \<Longrightarrow> single_spaced (take n s)"
proof (induction s arbitrary: n rule: single_spaced.induct)
  case 1
  show ?case by simp
next
  case (2 c)
  then show ?case by (cases n) auto
next
  case (3 c d r)
  show ?case
  proof (cases n)
    case 0
    then show ?thesis by simp
  next
    case (Suc m)
    have "single_spaced (take m (d # r))" using 3 by simp
    then show ?thesis using "3.prems" Suc by (cases m) auto
  qed
qed

lemma single_spaced_strip: "single_spaced s \<Longrightarrow> single_spaced (strip s)"
proof -
  assume s: "single_spaced s"
  have "lstrip s = drop (length (takeWhile is_space s)) s"
    by (simp add: lstrip_def dropWhile_eq_drop)
  then have "single_spaced (lstrip s)" using s by (simp add: single_spaced_drop)
  moreover obtain n where "strip s = take n (lstrip s)"
    unfolding strip_def using rstrip_take by blast
  ultimately show ?thesis by (simp add: single_spaced_take)
qed

lemma clean_heading_text_empty:
  "x = [] \<or> strip x = [] \<Longrightarrow> clean_heading_text x = []"
  by (auto simp: clean_heading_text_def)

lemma clean_heading_text_shape:
  assumes "\<not> (x = [] \<or> strip x = [])"
  shows "\<exists>w. clean_heading_text x =
           rstrip_chars ''.-_:'' (strip (re_sub rx_whitespace '' '' w))"
proof -
  let ?w = "strip (re_sub rx_bullets []
              (strip (re_sub rx_numbering []
                (strip (re_sub rx_section_numbers [] (strip x))))))"
  have "clean_heading_text x = rstrip_chars ''.-_:'' (strip (re_sub rx_whitespace '' '' ?w))"
    using assms by (simp add: clean_heading_text_def Let_def)
  then show ?thesis by (rule exI)
qed

lemma clean_heading_text_invariants:
  "(clean_heading_text x = [] \<or> \<not> is_space (hd (clean_heading_text x))) \<and>
   single_spaced (clean_heading_text x) \<and>
   (clean_heading_text x = [] \<or> last (clean_heading_text x) \<notin> set ''.-_:'')"
proof (cases "x = [] \<or> strip x = []")
  case True
  then have "clean_heading_text x = []" by (rule clean_heading_text_empty)
  then show ?thesis by simp
next
  case False
  then obtain w where y: "clean_heading_text x =
      rstrip_chars ''.-_:'' (strip (re_sub rx_whitespace '' '' w))"
    using clean_heading_text_shape by blast
  let ?z = "strip (re_sub rx_whitespace '' '' w)"
  let ?y = "clean_heading_text x"
  obtain n where n: "?y = take n ?z" unfolding y using rstrip_chars_take by blast
  have z1: "single_spaced ?z"
    by (simp add: re_sub_whitespace single_spaced_collapse_ws single_spaced_strip)
  have i2: "single_spaced ?y" unfolding n using z1 by (rule single_spaced_take)
  have i1: "?y = [] \<or> \<not> is_space (hd ?y)"
  proof (cases "?y = []")
    case True
    then show ?thesis by blast
  next
    case False
    then have "?z \<noteq> []" "0 < n" using n by auto
    then have "hd ?y = hd ?z" using n by (simp add: hd_take)
    moreover have "\<not> is_space (hd ?z)" using \<open>?z \<noteq> []\<close> by (rule strip_hd)
    ultimately show ?thesis by simp
  qed
  have i3: "?y = [] \<or> last ?y \<notin> set ''.-_:''"
    unfolding y using rstrip_chars_last by blast
  from i1 i2 i3 show ?thesis by blast
qed

lemma background_cleaned:
  "clean_heading_text '' 3.2.1  Background Information '' = ''Background Information''"
  by code_simp

lemma background_stable:
  "re_sub rx_section_numbers [] ''Background Information'' = ''Background Information'' \<and>
   re_sub rx_numbering [] ''Background Information'' = ''Background Information'' \<and>
   re_sub rx_bullets [] ''Background Information'' = ''Background Information'' \<and>
   \<not> is_space (last ''Background Information'')"
  by code_simp

lemma trailing_space_example:
  "clean_heading_text ''a .'' = ''a '' \<and> clean_heading_text ''a '' = ''a''"
  by code_simp

text \<open>
  C5, the claim as stated fails: cleaning \<open>2. A. Scope\<close> gives \<open>A. Scope\<close>, and
  cleaning that gives \<open>Scope\<close>. Each prefix pattern is applied once per call.
\<close>

theorem clean_heading_text_not_idempotent:
  "clean_heading_text ''2. A. Scope'' = ''A. Scope'' \<and>
   clean_heading_text (clean_heading_text ''2. A. Scope'') = ''Scope'' \<and>
   clean_heading_text (clean_heading_text ''2. A. Scope'') \<noteq> clean_heading_text ''2. A. Scope''"
  by code_simp

text \<open>
  C5, as amended. Cleaning a cleaned text again changes nothing whenever the cleaned
  text is left unchanged by the three prefix substitutions (section numbers, numbering,
  bullets) and does not end in whitespace.
\<close>

theorem clean_heading_text_idempotent_when_stable:
  assumes "y = clean_heading_text x"
    and "re_sub rx_section_numbers [] y = y"
    and "re_sub rx_numbering [] y = y"
    and "re_sub rx_bullets [] y = y"
    and "y = [] \<or> \<not> is_space (last y)"
  shows "clean_heading_text y = y"
proof (cases "y = []")
  case True
  then show ?thesis by (simp add: clean_heading_text_empty)
next
  case False
  have inv: "\<not> is_space (hd y)" "single_spaced y" "last y \<notin> set ''.-_:''"
    using clean_heading_text_invariants [of x] False assms(1) by auto
  have s: "strip y = y" using inv(1) assms(5) False by (intro strip_id) simp
  have w: "re_sub rx_whitespace '' '' y = y"
    using inv(2) by (simp add: re_sub_whitespace collapse_ws_single_spaced)
  have p: "rstrip_chars ''.-_:'' y = y" using inv(3) by (intro rstrip_chars_id) simp
  show ?thesis
    using False by (simp add: clean_heading_text_def Let_def s assms(2,3,4) w p)
qed

theorem clean_heading_text_idempotent_when_stable_witness:
  "clean_heading_text '' 3.2.1  Background Information '' = ''Background Information'' \<and>
   re_sub rx_section_numbers [] ''Background Information'' = ''Background Information'' \<and>
   re_sub rx_numbering [] ''Background Information'' = ''Background Information'' \<and>
   re_sub rx_bullets [] ''Background Information'' = ''Background Information'' \<and>
   \<not> is_space (last ''Background Information'') \<and>
   clean_heading_text ''Background Information'' = ''Background Information''"
  using clean_heading_text_idempotent_when_stable
          [of "''Background Information''" "'' 3.2.1  Background Information ''"]
        background_cleaned background_stable
  by simp


end
